theory Spec2Isabelle
  imports Main "HOL-Library.Multiset" "HOL-Library.Word"
begin

section \<open>The statistics protos\<close>

text \<open>
  \<^verbatim>\<open>stats_impl.py\<close> works on the messages of \<^verbatim>\<open>statistics_pb2\<close> (tensorflow_metadata's
  \<^verbatim>\<open>statistics.proto\<close>, proto3), which are not part of the source file. Only the fields
  that \<^verbatim>\<open>stats_impl.py\<close> reads or writes are kept:
  \<^item> \<^verbatim>\<open>CommonStatistics\<close>: the two counts \<^verbatim>\<open>num_non_missing\<close> and \<^verbatim>\<open>num_missing\<close>
    (\<^verbatim>\<open>uint64\<close>, a 64-bit word);
  \<^item> the oneof \<^verbatim>\<open>stats\<close> of \<^verbatim>\<open>FeatureNameStatistics\<close> with its four members
    \<^verbatim>\<open>num_stats\<close>, \<^verbatim>\<open>string_stats\<close>, \<^verbatim>\<open>bytes_stats\<close> and \<^verbatim>\<open>struct_stats\<close>; each member message
    is reduced to its optional sub-message \<^verbatim>\<open>common_stats\<close> (\<open>None\<close> when
    \<^verbatim>\<open>HasField('common_stats')\<close> is false);
  \<^item> \<^verbatim>\<open>FeatureNameStatistics\<close>: \<^verbatim>\<open>name\<close> and the oneof;
  \<^item> \<^verbatim>\<open>DatasetFeatureStatistics\<close>: \<^verbatim>\<open>num_examples\<close> (\<^verbatim>\<open>uint64\<close>; \<open>None\<close> while the
    field was never assigned) and the repeated field \<^verbatim>\<open>features\<close>.
\<close>

record CommonStatistics =
  num_non_missing :: "64 word"
  num_missing :: "64 word"

datatype stats =
    Stats_not_set
  | Num_stats "CommonStatistics option"
  | String_stats "CommonStatistics option"
  | Bytes_stats "CommonStatistics option"
  | Struct_stats "CommonStatistics option"

record FeatureNameStatistics =
  name :: string
  stats :: stats

text \<open>
  The repeated field \<^verbatim>\<open>features\<close> holds message objects. When a report is a Python
  object its entries are references into a store (\<open>'f = ref\<close>); when it is looked at as
  a value the entries are the messages themselves (\<open>'f = FeatureNameStatistics\<close>).
\<close>

datatype 'f DatasetFeatureStatistics =
  DatasetFeatureStatistics (num_examples: "64 word option") (features: "'f list")

record DatasetFeatureStatisticsList =
  datasets :: "FeatureNameStatistics DatasetFeatureStatistics list"

text \<open>\<^verbatim>\<open>WhichOneof('stats')\<close>: the name of the member that is set, or \<^verbatim>\<open>None\<close>.\<close>

fun WhichOneof :: "stats \<Rightarrow> string option" where
  "WhichOneof Stats_not_set = None"
| "WhichOneof (Num_stats c) = Some ''num_stats''"
| "WhichOneof (String_stats c) = Some ''string_stats''"
| "WhichOneof (Bytes_stats c) = Some ''bytes_stats''"
| "WhichOneof (Struct_stats c) = Some ''struct_stats''"

text \<open>
  Reading the member \<^verbatim>\<open>num_stats\<close> (or \<^verbatim>\<open>string_stats\<close>) of a message whose oneof holds
  another member gives the default instance, which has no \<^verbatim>\<open>common_stats\<close>.
\<close>

fun num_stats :: "stats \<Rightarrow> CommonStatistics option" where
  "num_stats (Num_stats c) = c"
| "num_stats other = None"

fun string_stats :: "stats \<Rightarrow> CommonStatistics option" where
  "string_stats (String_stats c) = c"
| "string_stats other = None"

subsection \<open>\<^verbatim>\<open>MergeFrom\<close> of the protobuf library\<close>

text \<open>
  \<^verbatim>\<open>dst.MergeFrom(src)\<close> of protobuf, for proto3 messages: a singular scalar field of
  \<^verbatim>\<open>src\<close> that is set (differs from its default) overwrites the field of \<^verbatim>\<open>dst\<close>; a
  sub-message that is present in \<^verbatim>\<open>src\<close> is merged recursively into the one of
  \<^verbatim>\<open>dst\<close> (created empty when absent); a oneof member set in \<^verbatim>\<open>src\<close> replaces a
  different member set in \<^verbatim>\<open>dst\<close>. It never raises for two messages of one type.
\<close>

definition CommonStatistics_MergeFrom ::
  "CommonStatistics \<Rightarrow> CommonStatistics \<Rightarrow> CommonStatistics" where
  "CommonStatistics_MergeFrom dst src =
     \<lparr>num_non_missing =
        (if num_non_missing src = 0 then num_non_missing dst else num_non_missing src),
      num_missing =
        (if num_missing src = 0 then num_missing dst else num_missing src)\<rparr>"

fun common_stats_MergeFrom ::
  "CommonStatistics option \<Rightarrow> CommonStatistics option \<Rightarrow> CommonStatistics option" where
  "common_stats_MergeFrom dst None = dst"
| "common_stats_MergeFrom None (Some s) =
     Some (CommonStatistics_MergeFrom \<lparr>num_non_missing = 0, num_missing = 0\<rparr> s)"
| "common_stats_MergeFrom (Some d) (Some s) = Some (CommonStatistics_MergeFrom d s)"

fun stats_MergeFrom :: "stats \<Rightarrow> stats \<Rightarrow> stats" where
  "stats_MergeFrom dst Stats_not_set = dst"
| "stats_MergeFrom (Num_stats d) (Num_stats s) = Num_stats (common_stats_MergeFrom d s)"
| "stats_MergeFrom dst (Num_stats s) = Num_stats (common_stats_MergeFrom None s)"
| "stats_MergeFrom (String_stats d) (String_stats s) =
     String_stats (common_stats_MergeFrom d s)"
| "stats_MergeFrom dst (String_stats s) = String_stats (common_stats_MergeFrom None s)"
| "stats_MergeFrom (Bytes_stats d) (Bytes_stats s) =
     Bytes_stats (common_stats_MergeFrom d s)"
| "stats_MergeFrom dst (Bytes_stats s) = Bytes_stats (common_stats_MergeFrom None s)"
| "stats_MergeFrom (Struct_stats d) (Struct_stats s) =
     Struct_stats (common_stats_MergeFrom d s)"
| "stats_MergeFrom dst (Struct_stats s) = Struct_stats (common_stats_MergeFrom None s)"

definition MergeFrom ::
  "FeatureNameStatistics \<Rightarrow> FeatureNameStatistics \<Rightarrow> FeatureNameStatistics" where
  "MergeFrom dst src =
     \<lparr>name = (if name src = [] then name dst else name src),
      stats = stats_MergeFrom (stats dst) (stats src)\<rparr>"

section \<open>Errors\<close>

text \<open>
  The exceptions that the source file raises or lets through: the \<^verbatim>\<open>TypeError\<close> of
  lines 302 to 306 with its message, the \<^verbatim>\<open>KeyError\<close> of a dict lookup with the key, the
  \<^verbatim>\<open>ValueError\<close> of protobuf when a value outside \<^verbatim>\<open>uint64\<close> is assigned to a field,
  with the value, and any exception of a function defined outside the file.
\<close>

datatype error = TypeError string | KeyError string | ValueError nat | OtherError string

section \<open>The report merger\<close>

text \<open>
  \<^verbatim>\<open>_merge_dataset_feature_stats_protos\<close> stores the entries of its inputs themselves in
  the dict \<^verbatim>\<open>stats_per_feature\<close> (line 170) and later calls \<^verbatim>\<open>MergeFrom\<close> on them
  (line 172), so the objects are shared between the dict and the input reports. The
  model keeps the message objects in a store: a reference is an address, the store maps
  an address to the current value of the object there. The dict is an association list
  in insertion order, the order in which \<^verbatim>\<open>values()\<close> iterates (Python 3.7 and
  later).
\<close>

type_synonym ref = nat

type_synonym store = "ref \<Rightarrow> FeatureNameStatistics"

type_synonym stats_per_feature = "(string \<times> ref) list"

text \<open>Lines 168 to 173: the inner loop, over the entries of one report.\<close>

fun merge_features ::
  "ref list \<Rightarrow> stats_per_feature \<times> store \<Rightarrow> stats_per_feature \<times> store" where
  "merge_features [] (spf, h) = (spf, h)"
| "merge_features (r # rs) (spf, h) =
     (case map_of spf (name (h r)) of
        None \<Rightarrow> merge_features rs (spf @ [(name (h r), r)], h)
      | Some t \<Rightarrow> merge_features rs (spf, h(t := MergeFrom (h t) (h r))))"

text \<open>Lines 167 to 173: the outer loop, over the reports.\<close>

fun merge_protos ::
  "ref DatasetFeatureStatistics list \<Rightarrow> stats_per_feature \<times> store
     \<Rightarrow> stats_per_feature \<times> store" where
  "merge_protos [] s = s"
| "merge_protos (p # ps) s = merge_protos ps (merge_features (features p) s)"

text \<open>
  Lines 186 to 196, for one entry while \<^verbatim>\<open>num_examples\<close> is still \<^verbatim>\<open>None\<close>: the
  member \<^verbatim>\<open>num_stats\<close> is read when it is the one set, \<^verbatim>\<open>string_stats\<close> in every
  other case. The sum of the two counts is a Python integer, which does not wrap.
\<close>

definition examples_of :: "FeatureNameStatistics \<Rightarrow> nat option" where
  "examples_of f =
     (let stats_proto =
        (if WhichOneof (stats f) = Some ''num_stats'' then num_stats (stats f)
         else string_stats (stats f))
      in case stats_proto of
           None \<Rightarrow> None
         | Some c \<Rightarrow> Some (unat (num_non_missing c) + unat (num_missing c)))"

text \<open>
  Lines 178 to 196: the loop over \<^verbatim>\<open>stats_per_feature.values()\<close>; every entry is copied
  into the new report, and \<^verbatim>\<open>num_examples\<close> is assigned at most once.
\<close>

fun copy_features ::
  "FeatureNameStatistics list \<Rightarrow> FeatureNameStatistics list \<times> nat option
     \<Rightarrow> FeatureNameStatistics list \<times> nat option" where
  "copy_features [] (fs, n) = (fs, n)"
| "copy_features (f # rest) (fs, n) =
     copy_features rest
       (fs @ [f], (case n of None \<Rightarrow> examples_of f | Some k \<Rightarrow> Some k))"

text \<open>
  Lines 164 to 196: the two loops, from the store before the call and the list of
  reports to the entries added to \<^verbatim>\<open>result\<close>, the local \<^verbatim>\<open>num_examples\<close> and the store
  after the loops.
\<close>

definition merge_loops ::
  "store \<Rightarrow> ref DatasetFeatureStatistics list
     \<Rightarrow> (FeatureNameStatistics list \<times> nat option) \<times> store" where
  "merge_loops h stats_protos =
     (case merge_protos stats_protos ([], h) of
        (spf, h') \<Rightarrow> (copy_features (map (\<lambda>(k, t). h' t) spf) ([], None), h'))"

text \<open>
  Lines 198 to 201: \<^verbatim>\<open>num_examples\<close> is assigned to the \<^verbatim>\<open>uint64\<close> field of the result
  unless it is \<^verbatim>\<open>None\<close>; protobuf raises \<^verbatim>\<open>ValueError\<close> for a value that is not below
  \<open>2 ^ 64\<close>.
\<close>

fun set_num_examples ::
  "FeatureNameStatistics list \<times> nat option
     \<Rightarrow> error + FeatureNameStatistics DatasetFeatureStatistics" where
  "set_num_examples (fs, None) = Inr (DatasetFeatureStatistics None fs)"
| "set_num_examples (fs, Some k) =
     (if k < 2 ^ 64 then Inr (DatasetFeatureStatistics (Some (of_nat k)) fs)
      else Inl (ValueError k))"

text \<open>
  The whole function: the new report or the exception, and the store after the call.
\<close>

definition merge_dataset_feature_stats_protos ::
  "store \<Rightarrow> ref DatasetFeatureStatistics list
     \<Rightarrow> (error + FeatureNameStatistics DatasetFeatureStatistics) \<times> store" where
  "merge_dataset_feature_stats_protos h stats_protos =
     (case merge_loops h stats_protos of
        (result, h') \<Rightarrow> (set_num_examples result, h'))"

subsection \<open>Calling the merger on report values\<close>

text \<open>
  A list of reports given as values is laid out in a store, every entry an object of
  its own: the entries get the addresses \<open>0, 1, 2, ...\<close> in the order of the list.
  \<open>merge_call\<close> returns the outcome of the merger together with the input reports
  as they are after the call, also when the call raises. \<open>merged_features\<close> and
  \<open>merged_count\<close> are the entries of \<^verbatim>\<open>result\<close> and the local \<^verbatim>\<open>num_examples\<close> when
  line 198 is reached.
\<close>

definition store_of :: "FeatureNameStatistics DatasetFeatureStatistics list \<Rightarrow> store" where
  "store_of ps =
     (\<lambda>a. if a < length (concat (map features ps)) then concat (map features ps) ! a
          else \<lparr>name = [], stats = Stats_not_set\<rparr>)"

fun refs_of ::
  "nat \<Rightarrow> FeatureNameStatistics DatasetFeatureStatistics list
     \<Rightarrow> ref DatasetFeatureStatistics list" where
  "refs_of k [] = []"
| "refs_of k (p # ps) =
     DatasetFeatureStatistics (num_examples p) [k ..< k + length (features p)]
       # refs_of (k + length (features p)) ps"

definition merge_call ::
  "FeatureNameStatistics DatasetFeatureStatistics list
     \<Rightarrow> (error + FeatureNameStatistics DatasetFeatureStatistics)
        \<times> FeatureNameStatistics DatasetFeatureStatistics list" where
  "merge_call ps =
     (case merge_dataset_feature_stats_protos (store_of ps) (refs_of 0 ps) of
        (result, h') \<Rightarrow> (result, map (map_DatasetFeatureStatistics h') (refs_of 0 ps)))"

definition merged_report ::
  "FeatureNameStatistics DatasetFeatureStatistics list
     \<Rightarrow> error + FeatureNameStatistics DatasetFeatureStatistics" where
  "merged_report ps = fst (merge_call ps)"

definition inputs_after ::
  "FeatureNameStatistics DatasetFeatureStatistics list
     \<Rightarrow> FeatureNameStatistics DatasetFeatureStatistics list" where
  "inputs_after ps = snd (merge_call ps)"

definition merged_features ::
  "FeatureNameStatistics DatasetFeatureStatistics list \<Rightarrow> FeatureNameStatistics list" where
  "merged_features ps = fst (fst (merge_loops (store_of ps) (refs_of 0 ps)))"

definition merged_count ::
  "FeatureNameStatistics DatasetFeatureStatistics list \<Rightarrow> nat option" where
  "merged_count ps = snd (fst (merge_loops (store_of ps) (refs_of 0 ps)))"

subsection \<open>The merge as a function on values\<close>

text \<open>
  The accumulation described without a store: an entry whose name is new is appended,
  an entry whose name is known is merged into the one that is there. The merger is
  compared with it below.
\<close>

fun merge_entries ::
  "FeatureNameStatistics list \<Rightarrow> (string \<times> FeatureNameStatistics) list
     \<Rightarrow> (string \<times> FeatureNameStatistics) list" where
  "merge_entries [] acc = acc"
| "merge_entries (f # fs) acc =
     (case map_of acc (name f) of
        None \<Rightarrow> merge_entries fs (acc @ [(name f, f)])
      | Some g \<Rightarrow>
          merge_entries fs
            (map (\<lambda>(k, v). if k = name f then (k, MergeFrom v f) else (k, v)) acc))"

text \<open>The count taken from the first entry, in list order, that yields one.\<close>

fun first_examples :: "FeatureNameStatistics list \<Rightarrow> nat option" where
  "first_examples [] = None"
| "first_examples (f # fs) =
     (case examples_of f of None \<Rightarrow> first_examples fs | Some k \<Rightarrow> Some k)"

text \<open>
  The oneof member of the last entry of a list that has one set: what a chain of
  \<^verbatim>\<open>MergeFrom\<close> calls leaves in the oneof.
\<close>

fun last_kind :: "FeatureNameStatistics list \<Rightarrow> string option" where
  "last_kind [] = None"
| "last_kind (f # fs) =
     (case last_kind fs of None \<Rightarrow> WhichOneof (stats f) | Some k \<Rightarrow> Some k)"

text \<open>
  The entry that a chain of \<^verbatim>\<open>MergeFrom\<close> calls builds for a name from a list of
  entries: the first entry of that name with the later ones merged into it in order.
\<close>

definition entry_fold ::
  "string \<Rightarrow> FeatureNameStatistics list \<Rightarrow> FeatureNameStatistics option" where
  "entry_fold n fs =
     (case filter (\<lambda>f. name f = n) fs of
        [] \<Rightarrow> None
      | f # gs \<Rightarrow> Some (foldl MergeFrom f gs))"

text \<open>
  The entries of the inputs as the loop of lines 167 to 173 leaves them: the first
  entry of a name has every later entry of that name merged into it, an entry whose
  name was seen before is as it was.
\<close>

fun entries_after ::
  "string set \<Rightarrow> FeatureNameStatistics list \<Rightarrow> FeatureNameStatistics list" where
  "entries_after seen [] = []"
| "entries_after seen (f # fs) =
     (if name f \<in> seen then f
      else foldl MergeFrom f (filter (\<lambda>g. name g = name f) fs))
       # entries_after (insert (name f) seen) fs"

section \<open>The report assembler\<close>

definition make_dataset_feature_statistics_list_proto ::
  "FeatureNameStatistics DatasetFeatureStatistics \<Rightarrow> DatasetFeatureStatisticsList" where
  "make_dataset_feature_statistics_list_proto stats_proto = \<lparr>datasets = [stats_proto]\<rparr>"

section \<open>Feature whitelists\<close>

text \<open>A batch is a dict from feature names to columns of values.\<close>

type_synonym 'v batch = "string \<rightharpoonup> 'v"

text \<open>
  \<^verbatim>\<open>_filter_features\<close>, lines 146 to 150: the comprehension runs over the whitelist
  and keeps a name only if it is a key of the batch.
\<close>

fun filter_features_loop :: "'v batch \<Rightarrow> string list \<Rightarrow> 'v batch \<Rightarrow> 'v batch" where
  "filter_features_loop batch [] acc = acc"
| "filter_features_loop batch (feature_name # rest) acc =
     (case batch feature_name of
        None \<Rightarrow> filter_features_loop batch rest acc
      | Some column \<Rightarrow> filter_features_loop batch rest (acc(feature_name \<mapsto> column)))"

definition filter_features :: "'v batch \<Rightarrow> string list \<Rightarrow> 'v batch" where
  "filter_features batch feature_whitelist =
     filter_features_loop batch feature_whitelist Map.empty"

section \<open>The in-memory path\<close>

text \<open>
  A \<^verbatim>\<open>CombinerStatsGenerator\<close> is given by its three methods, over accumulators of
  type \<open>'a\<close>; the methods are taken to return. An entry of \<^verbatim>\<open>options.generators\<close>
  is a combiner, a \<^verbatim>\<open>TransformStatsGenerator\<close> or any other object; each carries the
  name of its class.
\<close>

record ('a, 'v) CombinerStatsGenerator =
  create_accumulator :: 'a
  add_input :: "'a \<Rightarrow> 'v batch \<Rightarrow> 'a"
  extract_output :: "'a \<Rightarrow> FeatureNameStatistics DatasetFeatureStatistics"

datatype ('a, 'v) generator =
    Combiner string "('a, 'v) CombinerStatsGenerator"
  | Transform string
  | Other string

text \<open>\<^verbatim>\<open>isinstance(generator, stats_generator.CombinerStatsGenerator)\<close>.\<close>

fun is_combiner :: "('a, 'v) generator \<Rightarrow> bool" where
  "is_combiner (Combiner c g) = True"
| "is_combiner (Transform c) = False"
| "is_combiner (Other c) = False"

text \<open>\<^verbatim>\<open>generator.__class__.__name__\<close>.\<close>

fun class_name :: "('a, 'v) generator \<Rightarrow> string" where
  "class_name (Combiner c g) = c"
| "class_name (Transform c) = c"
| "class_name (Other c) = c"

text \<open>The message of the \<^verbatim>\<open>TypeError\<close> of lines 302 to 306.\<close>

definition type_error_message :: "string \<Rightarrow> string" where
  "type_error_message c =
     ''Statistics generator used in generate_statistics_in_memory must ''
     @ ''extend CombinerStatsGenerator, found object of type '' @ c @ ''.''"

record ('a, 'v) StatsOptions =
  generators :: "('a, 'v) generator list option"
  feature_whitelist :: "string list option"

text \<open>Lines 298 to 306: the first entry that is no combiner raises.\<close>

fun add_generators ::
  "('a, 'v) generator list \<Rightarrow> ('a, 'v) CombinerStatsGenerator list
     \<Rightarrow> error + ('a, 'v) CombinerStatsGenerator list" where
  "add_generators [] stats_generators = Inr stats_generators"
| "add_generators (Combiner c g # rest) stats_generators =
     add_generators rest (stats_generators @ [g])"
| "add_generators (other # rest) stats_generators =
     Inl (TypeError (type_error_message (class_name other)))"

text \<open>
  Lines 312 to 315: the comprehension of the in-memory path reads
  \<^verbatim>\<open>batch[feature_name]\<close> for every name of the whitelist, which raises \<^verbatim>\<open>KeyError\<close>
  for a name that is no key of the batch.
\<close>

fun whitelist_batch :: "'v batch \<Rightarrow> string list \<Rightarrow> 'v batch \<Rightarrow> error + 'v batch" where
  "whitelist_batch batch [] acc = Inr acc"
| "whitelist_batch batch (feature_name # rest) acc =
     (case batch feature_name of
        None \<Rightarrow> Inl (KeyError feature_name)
      | Some column \<Rightarrow> whitelist_batch batch rest (acc(feature_name \<mapsto> column)))"

text \<open>
  Lines 311 to 315: the whitelist is applied when \<^verbatim>\<open>options.feature_whitelist\<close> is
  true, that is neither \<^verbatim>\<open>None\<close> nor empty.
\<close>

fun apply_whitelist :: "string list option \<Rightarrow> 'v batch \<Rightarrow> error + 'v batch" where
  "apply_whitelist None batch = Inr batch"
| "apply_whitelist (Some []) batch = Inr batch"
| "apply_whitelist (Some (n # ns)) batch = whitelist_batch batch (n # ns) Map.empty"

text \<open>
  \<^verbatim>\<open>generate_statistics_in_memory\<close>. The four built-in generators of lines 272 to 295
  and \<^verbatim>\<open>batch_util.merge_single_batch\<close> are defined outside the source file and are
  parameters here; \<^verbatim>\<open>merge_single_batch\<close> may fail.
\<close>

definition generate_statistics_in_memory ::
  "('a, 'v) CombinerStatsGenerator list \<Rightarrow> ('e list \<Rightarrow> error + 'v batch)
     \<Rightarrow> 'e list \<Rightarrow> ('a, 'v) StatsOptions \<Rightarrow> error + DatasetFeatureStatisticsList" where
  "generate_statistics_in_memory builtin merge_single_batch examples options =
     (case (case generators options of
              None \<Rightarrow> Inr builtin
            | Some gs \<Rightarrow> add_generators gs builtin) of
        Inl e \<Rightarrow> Inl e
      | Inr stats_generators \<Rightarrow>
          (case merge_single_batch examples of
             Inl e \<Rightarrow> Inl e
           | Inr batch \<Rightarrow>
               (case apply_whitelist (feature_whitelist options) batch of
                  Inl e \<Rightarrow> Inl e
                | Inr batch' \<Rightarrow>
                    (case merged_report
                            (map (\<lambda>g. extract_output g
                                         (add_input g (create_accumulator g) batch'))
                               stats_generators) of
                       Inl e \<Rightarrow> Inl e
                     | Inr stats_proto \<Rightarrow>
                         Inr (make_dataset_feature_statistics_list_proto stats_proto)))))"

section \<open>Properties of the store-based merger\<close>

lemma name_MergeFrom: "name src = name dst \<Longrightarrow> name (MergeFrom dst src) = name dst"
  by (simp add: MergeFrom_def)

lemma merge_features_append:
  "merge_features (xs @ ys) s = merge_features ys (merge_features xs s)"
proof (induction xs arbitrary: s)
  case Nil
  show ?case by (cases s) simp
next
  case (Cons x xs)
  show ?case by (cases s) (simp add: Cons.IH split: option.splits)
qed

lemma merge_protos_concat:
  "merge_protos ps s = merge_features (concat (map features ps)) s"
proof (induction ps arbitrary: s)
  case Nil
  show ?case by (cases s) simp
next
  case (Cons p ps)
  show ?case by (simp add: Cons.IH merge_features_append)
qed

lemma copy_features_eq:
  "copy_features xs (fs, n) =
     (fs @ xs, case n of None \<Rightarrow> first_examples xs | Some k \<Rightarrow> Some k)"
  by (induction xs arbitrary: fs n) (auto split: option.splits)

lemma map_of_deref:
  "map_of (map (\<lambda>(k, t). (k, h t)) spf) n = map_option h (map_of spf n)"
  by (induction spf) auto

lemma merge_features_refines:
  assumes "distinct rs" and "set rs \<inter> snd ` set spf = {}"
    and "distinct (map snd spf)" and "distinct (map fst spf)"
    and "\<forall>(k, t)\<in>set spf. name (h t) = k"
    and "merge_features rs (spf, h) = (spf', h')"
  shows "map (\<lambda>(k, t). (k, h' t)) spf' =
           merge_entries (map h rs) (map (\<lambda>(k, t). (k, h t)) spf)"
  using assms
proof (induction rs arbitrary: spf h)
  case Nil
  then show ?case by simp
next
  case (Cons r rs)
  show ?case
  proof (cases "map_of spf (name (h r))")
    case None
    have key: "name (h r) \<notin> fst ` set spf"
      using None by (simp add: map_of_eq_None_iff)
    have step: "merge_features rs (spf @ [(name (h r), r)], h) = (spf', h')"
      using Cons.prems(6) None by simp
    have "map (\<lambda>(k, t). (k, h' t)) spf' =
            merge_entries (map h rs) (map (\<lambda>(k, t). (k, h t)) (spf @ [(name (h r), r)]))"
    proof (rule Cons.IH [OF _ _ _ _ _ step])
      show "distinct rs" using Cons.prems(1) by simp
      show "set rs \<inter> snd ` set (spf @ [(name (h r), r)]) = {}"
        using Cons.prems(1,2) by auto
      show "distinct (map snd (spf @ [(name (h r), r)]))"
        using Cons.prems(2,3) by auto
      show "distinct (map fst (spf @ [(name (h r), r)]))"
        using Cons.prems(4) key by auto
      show "\<forall>(k, t)\<in>set (spf @ [(name (h r), r)]). name (h t) = k"
        using Cons.prems(5) by auto
    qed
    then show ?thesis using None by (simp add: map_of_deref)
  next
    case (Some t)
    let ?h = "h(t := MergeFrom (h t) (h r))"
    have tin: "(name (h r), t) \<in> set spf" using Some by (rule map_of_SomeD)
    have tname: "name (h t) = name (h r)" using Cons.prems(5) tin by auto
    have tr: "t \<noteq> r" "t \<notin> set rs" using Cons.prems(2) tin by force+
    have step: "merge_features rs (spf, ?h) = (spf', h')"
      using Cons.prems(6) Some by simp
    have ih: "map (\<lambda>(k, t). (k, h' t)) spf' =
            merge_entries (map ?h rs) (map (\<lambda>(k, t). (k, ?h t)) spf)"
    proof (rule Cons.IH [OF _ _ _ _ _ step])
      show "distinct rs" using Cons.prems(1) by simp
      show "set rs \<inter> snd ` set spf = {}" using Cons.prems(2) by auto
      show "distinct (map snd spf)" by (rule Cons.prems(3))
      show "distinct (map fst spf)" by (rule Cons.prems(4))
      show "\<forall>(k, u)\<in>set spf. name (?h u) = k"
        using Cons.prems(5) tname by (auto simp: name_MergeFrom)
    qed
    have rs_eq: "map ?h rs = map h rs" using tr by simp
    have upd: "map (\<lambda>(k, u). (k, ?h u)) spf =
               map (\<lambda>(k, v). if k = name (h r) then (k, MergeFrom v (h r)) else (k, v))
                 (map (\<lambda>(k, t). (k, h t)) spf)"
    proof -
      have "\<And>k u. (k, u) \<in> set spf \<Longrightarrow> (u = t) = (k = name (h r))"
      proof -
        fix k u assume ku: "(k, u) \<in> set spf"
        show "(u = t) = (k = name (h r))"
        proof
          assume "u = t"
          then show "k = name (h r)" using Cons.prems(5) ku tname by auto
        next
          assume "k = name (h r)"
          then have "map_of spf (name (h r)) = Some u"
            using ku Cons.prems(4) by simp
          then show "u = t" using Some by simp
        qed
      qed
      then have "\<And>x. x \<in> set spf \<Longrightarrow>
          (case x of (k, u) \<Rightarrow> (k, ?h u)) =
          (case (case x of (k, t) \<Rightarrow> (k, h t)) of
             (k, v) \<Rightarrow> if k = name (h r) then (k, MergeFrom v (h r)) else (k, v))"
        by (force simp: fun_upd_def)
      then show ?thesis by simp
    qed
    have "merge_entries (map h (r # rs)) (map (\<lambda>(k, t). (k, h t)) spf) =
            merge_entries (map h rs)
              (map (\<lambda>(k, v). if k = name (h r) then (k, MergeFrom v (h r)) else (k, v))
                 (map (\<lambda>(k, t). (k, h t)) spf))"
      using Some by (simp add: map_of_deref del: map_map)
    also have "\<dots> = merge_entries (map ?h rs) (map (\<lambda>(k, u). (k, ?h u)) spf)"
      by (simp only: rs_eq upd)
    finally show ?thesis using ih by simp
  qed
qed

lemma refs_of_concat:
  "concat (map features (refs_of k ps)) = [k ..< k + length (concat (map features ps))]"
proof (induction ps arbitrary: k)
  case Nil
  show ?case by simp
next
  case (Cons p ps)
  have "[k ..< k + length (features p)] @
          [k + length (features p) ..< k + length (features p) + length (concat (map features ps))]
        = [k ..< k + length (features p) + length (concat (map features ps))]"
    by (simp add: upt_add_eq_append [symmetric])
  then show ?case by (simp add: Cons.IH add.assoc)
qed

lemma refs_of_deref:
  "\<forall>i < length (concat (map features ps)). h (k + i) = concat (map features ps) ! i \<Longrightarrow>
   map (map_DatasetFeatureStatistics h) (refs_of k ps) = ps"
proof (induction ps arbitrary: k)
  case Nil
  show ?case by simp
next
  case (Cons p ps)
  let ?n = "length (features p)"
  have all: "\<And>i. i < ?n + length (concat (map features ps)) \<Longrightarrow>
               h (k + i) = (features p @ concat (map features ps)) ! i"
    using Cons.prems by simp
  have hd: "map h [k ..< k + ?n] = features p"
  proof (rule nth_equalityI)
    show "length (map h [k ..< k + ?n]) = length (features p)" by simp
  next
    fix i assume "i < length (map h [k ..< k + ?n])"
    then have i: "i < ?n" by simp
    then have "h (k + i) = features p ! i" using all [of i] by (simp add: nth_append)
    then show "map h [k ..< k + ?n] ! i = features p ! i" using i by simp
  qed
  have tl: "map (map_DatasetFeatureStatistics h) (refs_of (k + ?n) ps) = ps"
  proof (rule Cons.IH, intro allI impI)
    fix i assume i: "i < length (concat (map features ps))"
    then have "h (k + (?n + i)) = (features p @ concat (map features ps)) ! (?n + i)"
      using all [of "?n + i"] by simp
    then show "h (k + ?n + i) = concat (map features ps) ! i"
      by (simp add: add.assoc)
  qed
  show ?case using hd tl by (cases p) simp
qed

lemma store_of_deref:
  "map (map_DatasetFeatureStatistics (store_of ps)) (refs_of 0 ps) = ps"
  by (rule refs_of_deref) (simp add: store_of_def)

lemma store_of_entries:
  "map (store_of ps) [0 ..< length (concat (map features ps))] = concat (map features ps)"
  by (rule nth_equalityI) (simp_all add: store_of_def)

lemma map_fst_merged:
  "map fst (map (\<lambda>(k, v). if k = n then (k, MergeFrom v f) else (k, v)) acc) = map fst acc"
  by (induction acc) auto

lemma map_of_merged:
  "map_of (map (\<lambda>(k, v). if k = n then (k, MergeFrom v f) else (k, v)) acc) m =
     (if m = n then map_option (\<lambda>v. MergeFrom v f) (map_of acc m) else map_of acc m)"
  by (induction acc) auto

lemma merge_entries_keys:
  "fst ` set (merge_entries fs acc) = fst ` set acc \<union> name ` set fs"
proof (induction fs arbitrary: acc)
  case Nil
  show ?case by simp
next
  case (Cons f fs)
  show ?case
  proof (cases "map_of acc (name f)")
    case None
    have "fst ` set (merge_entries fs (acc @ [(name f, f)])) =
            fst ` set (acc @ [(name f, f)]) \<union> name ` set fs"
      by (rule Cons.IH)
    then show ?thesis using None by auto
  next
    case (Some g)
    let ?acc = "map (\<lambda>(k, v). if k = name f then (k, MergeFrom v f) else (k, v)) acc"
    have "(name f, g) \<in> set acc" using Some by (rule map_of_SomeD)
    then have mem: "name f \<in> fst ` set acc" by force
    have "set (map fst ?acc) = set (map fst acc)" by (simp only: map_fst_merged)
    then have keys: "fst ` set ?acc = fst ` set acc" by (simp only: set_map)
    have "fst ` set (merge_entries fs ?acc) = fst ` set ?acc \<union> name ` set fs"
      by (rule Cons.IH)
    then show ?thesis using Some mem keys by auto
  qed
qed

lemma merge_entries_distinct:
  "distinct (map fst acc) \<Longrightarrow> distinct (map fst (merge_entries fs acc))"
proof (induction fs arbitrary: acc)
  case Nil
  then show ?case by simp
next
  case (Cons f fs)
  show ?case
  proof (cases "map_of acc (name f)")
    case None
    then have "name f \<notin> fst ` set acc" by (simp add: map_of_eq_None_iff)
    then have "distinct (map fst (acc @ [(name f, f)]))" using Cons.prems by simp
    then show ?thesis using None Cons.IH by simp
  next
    case (Some g)
    have "distinct (map fst (map (\<lambda>(k, v). if k = name f then (k, MergeFrom v f) else (k, v)) acc))"
      using Cons.prems by (simp only: map_fst_merged)
    then show ?thesis using Some Cons.IH by simp
  qed
qed

lemma merge_entries_names:
  "\<forall>(k, v)\<in>set acc. name v = k \<Longrightarrow> \<forall>(k, v)\<in>set (merge_entries fs acc). name v = k"
proof (induction fs arbitrary: acc)
  case Nil
  then show ?case by simp
next
  case (Cons f fs)
  show ?case
  proof (cases "map_of acc (name f)")
    case None
    have "\<forall>(k, v)\<in>set (acc @ [(name f, f)]). name v = k" using Cons.prems by auto
    then have "\<forall>(k, v)\<in>set (merge_entries fs (acc @ [(name f, f)])). name v = k"
      by (rule Cons.IH)
    then show ?thesis using None by simp
  next
    case (Some g)
    have "\<forall>(k, v)\<in>set (map (\<lambda>(k, v). if k = name f then (k, MergeFrom v f) else (k, v)) acc).
            name v = k"
      using Cons.prems by (auto simp: MergeFrom_def split: if_splits)
    then have "\<forall>(k, v)\<in>set (merge_entries fs
        (map (\<lambda>(k, v). if k = name f then (k, MergeFrom v f) else (k, v)) acc)). name v = k"
      by (rule Cons.IH)
    then show ?thesis using Some by simp
  qed
qed

lemma merge_entries_no_clash:
  "distinct (map name fs) \<Longrightarrow> name ` set fs \<inter> fst ` set acc = {} \<Longrightarrow>
   merge_entries fs acc = acc @ map (\<lambda>f. (name f, f)) fs"
proof (induction fs arbitrary: acc)
  case Nil
  show ?case by simp
next
  case (Cons f fs)
  have none: "map_of acc (name f) = None"
    using Cons.prems(2) by (simp add: map_of_eq_None_iff)
  have "merge_entries fs (acc @ [(name f, f)]) = (acc @ [(name f, f)]) @ map (\<lambda>f. (name f, f)) fs"
    using Cons.prems by (intro Cons.IH) auto
  then show ?case using none by simp
qed

lemma merge_entries_lookup:
  "map_of (merge_entries fs acc) n =
     (case map_of acc n of
        None \<Rightarrow> (case filter (\<lambda>f. name f = n) fs of
                    [] \<Rightarrow> None
                  | f # gs \<Rightarrow> Some (foldl MergeFrom f gs))
      | Some g \<Rightarrow> Some (foldl MergeFrom g (filter (\<lambda>f. name f = n) fs)))"
proof (induction fs arbitrary: acc)
  case Nil
  show ?case by (simp split: option.splits)
next
  case (Cons f fs)
  show ?case
  proof (cases "map_of acc (name f)")
    case None
    then show ?thesis
      by (auto simp: Cons.IH map_add_def split: option.splits list.splits)
  next
    case (Some g)
    then show ?thesis
      by (auto simp: Cons.IH map_of_merged split: option.splits list.splits)
  qed
qed

lemma WhichOneof_stats_MergeFrom:
  "WhichOneof (stats_MergeFrom d s) =
     (case WhichOneof s of None \<Rightarrow> WhichOneof d | Some k \<Rightarrow> Some k)"
  by (cases d; cases s) simp_all

lemma WhichOneof_MergeFrom:
  "WhichOneof (stats (MergeFrom d s)) =
     (case WhichOneof (stats s) of None \<Rightarrow> WhichOneof (stats d) | Some k \<Rightarrow> Some k)"
  by (simp add: MergeFrom_def WhichOneof_stats_MergeFrom)

lemma WhichOneof_foldl:
  "WhichOneof (stats (foldl MergeFrom f gs)) = last_kind (f # gs)"
proof (induction gs arbitrary: f)
  case Nil
  show ?case by simp
next
  case (Cons g gs)
  show ?case
    by (simp add: Cons.IH WhichOneof_MergeFrom split: option.splits)
qed

lemma merge_features_frame:
  "merge_features rs (spf, h) = (spf', h') \<Longrightarrow>
   set spf \<subseteq> set spf' \<and> (\<forall>r. r \<notin> snd ` set spf' \<longrightarrow> h' r = h r)"
proof (induction rs arbitrary: spf h)
  case Nil
  then show ?case by simp
next
  case (Cons r rs)
  show ?case
  proof (cases "map_of spf (name (h r))")
    case None
    then have "merge_features rs (spf @ [(name (h r), r)], h) = (spf', h')"
      using Cons.prems by simp
    from Cons.IH [OF this] show ?thesis by auto
  next
    case (Some t)
    then have "merge_features rs (spf, h(t := MergeFrom (h t) (h r))) = (spf', h')"
      using Cons.prems by simp
    from Cons.IH [OF this]
    have sub: "set spf \<subseteq> set spf'"
      and fr: "\<forall>u. u \<notin> snd ` set spf' \<longrightarrow> h' u = (h(t := MergeFrom (h t) (h r))) u"
      by auto
    have "(name (h r), t) \<in> set spf" using Some by (rule map_of_SomeD)
    then have "t \<in> snd ` set spf'" using sub by force
    then show ?thesis using sub fr by auto
  qed
qed

lemma merge_features_names:
  "merge_features rs (spf, h) = (spf', h') \<Longrightarrow> \<forall>(k, t)\<in>set spf. name (h t) = k \<Longrightarrow>
   (\<forall>(k, t)\<in>set spf'. name (h' t) = k) \<and> (\<forall>r. name (h' r) = name (h r))"
proof (induction rs arbitrary: spf h)
  case Nil
  then show ?case by simp
next
  case (Cons r rs)
  show ?case
  proof (cases "map_of spf (name (h r))")
    case None
    then have run: "merge_features rs (spf @ [(name (h r), r)], h) = (spf', h')"
      using Cons.prems by simp
    have "\<forall>(k, t)\<in>set (spf @ [(name (h r), r)]). name (h t) = k"
      using Cons.prems(2) by auto
    from Cons.IH [OF run this] show ?thesis .
  next
    case (Some t)
    let ?h = "h(t := MergeFrom (h t) (h r))"
    have run: "merge_features rs (spf, ?h) = (spf', h')"
      using Cons.prems Some by simp
    have "(name (h r), t) \<in> set spf" using Some by (rule map_of_SomeD)
    then have tname: "name (h t) = name (h r)" using Cons.prems(2) by auto
    then have same: "\<And>u. name (?h u) = name (h u)" by (simp add: name_MergeFrom)
    then have "\<forall>(k, u)\<in>set spf. name (?h u) = k" using Cons.prems(2) by auto
    from Cons.IH [OF run this]
    have a: "\<forall>(k, t)\<in>set spf'. name (h' t) = k" and b: "\<And>u. name (h' u) = name (?h u)"
      by auto
    have "\<forall>u. name (h' u) = name (h u)" by (simp only: b same) simp
    with a show ?thesis by simp
  qed
qed

lemma merge_features_no_clash:
  "distinct (map (\<lambda>r. name (h r)) rs) \<Longrightarrow> (\<lambda>r. name (h r)) ` set rs \<inter> fst ` set spf = {} \<Longrightarrow>
   merge_features rs (spf, h) = (spf @ map (\<lambda>r. (name (h r), r)) rs, h)"
proof (induction rs arbitrary: spf)
  case Nil
  show ?case by simp
next
  case (Cons r rs)
  have none: "map_of spf (name (h r)) = None"
    using Cons.prems(2) by (simp add: map_of_eq_None_iff)
  have "merge_features rs (spf @ [(name (h r), r)], h) =
          ((spf @ [(name (h r), r)]) @ map (\<lambda>r. (name (h r), r)) rs, h)"
    using Cons.prems by (intro Cons.IH) auto
  then show ?case using none by simp
qed

section \<open>The merger on report values\<close>

lemma merge_loops_eq:
  assumes "merge_features [0 ..< length (concat (map features ps))] ([], store_of ps) = (spf, h')"
  shows "merge_loops (store_of ps) (refs_of 0 ps) =
           ((map (\<lambda>(k, t). h' t) spf, first_examples (map (\<lambda>(k, t). h' t) spf)), h')"
proof -
  have "merge_protos (refs_of 0 ps) ([], store_of ps) = (spf, h')"
    using assms by (simp add: merge_protos_concat refs_of_concat)
  then show ?thesis by (simp add: merge_loops_def copy_features_eq)
qed

lemma merged_features_eq:
  "merged_features ps = map snd (merge_entries (concat (map features ps)) [])"
proof -
  let ?rs = "[0 ..< length (concat (map features ps))]"
  obtain spf h' where run: "merge_features ?rs ([], store_of ps) = (spf, h')"
    by (cases "merge_features ?rs ([], store_of ps)")
  have "map (\<lambda>(k, t). (k, h' t)) spf =
          merge_entries (map (store_of ps) ?rs) (map (\<lambda>(k, t). (k, store_of ps t)) [])"
    by (rule merge_features_refines [OF _ _ _ _ _ run]) simp_all
  then have ref: "map (\<lambda>(k, t). (k, h' t)) spf = merge_entries (concat (map features ps)) []"
    by (simp add: store_of_entries)
  have "map (\<lambda>(k, t). h' t) spf = map snd (map (\<lambda>(k, t). (k, h' t)) spf)"
    by (simp add: case_prod_unfold comp_def)
  then have "map (\<lambda>(k, t). h' t) spf = map snd (merge_entries (concat (map features ps)) [])"
    by (simp only: ref)
  then show ?thesis
    using merge_loops_eq [OF run] by (simp add: merged_features_def)
qed

lemma merged_count_eq: "merged_count ps = first_examples (merged_features ps)"
proof -
  let ?rs = "[0 ..< length (concat (map features ps))]"
  obtain spf h' where run: "merge_features ?rs ([], store_of ps) = (spf, h')"
    by (cases "merge_features ?rs ([], store_of ps)")
  show ?thesis
    using merge_loops_eq [OF run] by (simp add: merged_features_def merged_count_def)
qed

lemma merged_report_outcome:
  "merged_report ps = set_num_examples (merged_features ps, merged_count ps)"
  by (simp add: merged_report_def merge_call_def merge_dataset_feature_stats_protos_def
      merged_features_def merged_count_def split: prod.splits)

lemma merged_report_cases:
  "merged_report ps =
     (case merged_count ps of
        None \<Rightarrow> Inr (DatasetFeatureStatistics None (merged_features ps))
      | Some k \<Rightarrow>
          if k < 2 ^ 64 then Inr (DatasetFeatureStatistics (Some (of_nat k)) (merged_features ps))
          else Inl (ValueError k))"
  by (simp add: merged_report_outcome split: option.splits)

lemma merged_report_features:
  "merged_report ps = Inr r \<Longrightarrow> features r = merged_features ps"
  by (auto simp: merged_report_cases split: option.splits if_splits)

lemma inputs_after_eq:
  assumes "merge_features [0 ..< length (concat (map features ps))] ([], store_of ps) = (spf, h')"
  shows "inputs_after ps = map (map_DatasetFeatureStatistics h') (refs_of 0 ps)"
  using merge_loops_eq [OF assms]
  by (simp add: inputs_after_def merge_call_def merge_dataset_feature_stats_protos_def)

lemma merged_features_names:
  "map name (merged_features ps) = map fst (merge_entries (concat (map features ps)) [])"
proof -
  have "\<forall>(k, v)\<in>set (merge_entries (concat (map features ps)) []). name v = k"
    by (rule merge_entries_names) simp
  then have "map (\<lambda>x. name (snd x)) (merge_entries (concat (map features ps)) []) =
             map fst (merge_entries (concat (map features ps)) [])"
    by (intro map_cong refl) auto
  then show ?thesis by (simp add: merged_features_eq comp_def)
qed

lemma merged_features_names_set:
  "name ` set (merged_features ps) = name ` set (concat (map features ps))"
proof -
  have "name ` set (merged_features ps) = set (map name (merged_features ps))"
    by simp
  also have "\<dots> = fst ` set (merge_entries (concat (map features ps)) [])"
    by (simp only: merged_features_names set_map)
  also have "\<dots> = name ` set (concat (map features ps))"
    by (simp add: merge_entries_keys)
  finally show ?thesis .
qed


lemma last_kind_None: "last_kind fs = None \<longleftrightarrow> (\<forall>f\<in>set fs. WhichOneof (stats f) = None)"
  by (induction fs) (auto split: option.splits)

lemma merged_features_lookup:
  "map_of (merge_entries (concat (map features ps)) []) n =
     entry_fold n (concat (map features ps))"
  by (simp add: merge_entries_lookup entry_fold_def)

lemma merged_features_entry:
  "(e \<in> set (merged_features ps) \<and> name e = n) \<longleftrightarrow>
     entry_fold n (concat (map features ps)) = Some e"
proof -
  let ?E = "merge_entries (concat (map features ps)) []"
  have fs: "merged_features ps = map snd ?E" by (rule merged_features_eq)
  have wf: "\<forall>(k, v)\<in>set ?E. name v = k" by (rule merge_entries_names) simp
  have dist: "distinct (map fst ?E)" by (rule merge_entries_distinct) simp
  show ?thesis
  proof
    assume a: "e \<in> set (merged_features ps) \<and> name e = n"
    then obtain k where ke: "(k, e) \<in> set ?E" by (auto simp: fs)
    then have "k = n" using wf a by auto
    then have "map_of ?E n = Some e" using ke dist by simp
    then show "entry_fold n (concat (map features ps)) = Some e"
      by (simp only: merged_features_lookup)
  next
    assume "entry_fold n (concat (map features ps)) = Some e"
    then have "map_of ?E n = Some e" by (simp only: merged_features_lookup)
    then have mem: "(n, e) \<in> set ?E" by (rule map_of_SomeD)
    then have "name e = n" using wf by auto
    moreover have "e \<in> set (merged_features ps)" using mem by (force simp: fs)
    ultimately show "e \<in> set (merged_features ps) \<and> name e = n" by simp
  qed
qed

section \<open>The input reports after the call\<close>

lemma merge_features_inv:
  assumes "distinct rs" and "set rs \<inter> snd ` set spf = {}"
    and "distinct (map snd spf)" and "distinct (map fst spf)"
    and "merge_features rs (spf, h) = (spf', h')"
  shows "distinct (map snd spf') \<and> distinct (map fst spf') \<and>
         snd ` set spf' \<subseteq> snd ` set spf \<union> set rs"
  using assms
proof (induction rs arbitrary: spf h)
  case Nil
  then show ?case by simp
next
  case (Cons r rs)
  show ?case
  proof (cases "map_of spf (name (h r))")
    case None
    let ?spf = "spf @ [(name (h r), r)]"
    have key: "name (h r) \<notin> fst ` set spf"
      using None by (simp add: map_of_eq_None_iff)
    have run: "merge_features rs (?spf, h) = (spf', h')"
      using Cons.prems(5) None by simp
    have "distinct (map snd spf') \<and> distinct (map fst spf') \<and>
          snd ` set spf' \<subseteq> snd ` set ?spf \<union> set rs"
    proof (rule Cons.IH [OF _ _ _ _ run])
      show "distinct rs" using Cons.prems(1) by simp
      show "set rs \<inter> snd ` set ?spf = {}" using Cons.prems(1,2) by auto
      show "distinct (map snd ?spf)" using Cons.prems(2,3) by auto
      show "distinct (map fst ?spf)" using Cons.prems(4) key by auto
    qed
    then show ?thesis by auto
  next
    case (Some t)
    have run: "merge_features rs (spf, h(t := MergeFrom (h t) (h r))) = (spf', h')"
      using Cons.prems(5) Some by simp
    have "distinct (map snd spf') \<and> distinct (map fst spf') \<and>
          snd ` set spf' \<subseteq> snd ` set spf \<union> set rs"
    proof (rule Cons.IH [OF _ _ _ _ run])
      show "distinct rs" using Cons.prems(1) by simp
      show "set rs \<inter> snd ` set spf = {}" using Cons.prems(2) by auto
      show "distinct (map snd spf)" by (rule Cons.prems(3))
      show "distinct (map fst spf)" by (rule Cons.prems(4))
    qed
    then show ?thesis by auto
  qed
qed

lemma merge_features_keys:
  assumes "distinct rs" and "merge_features rs ([], h) = (spf', h')"
  shows "fst ` set spf' = (\<lambda>a. name (h a)) ` set rs"
proof -
  have "map (\<lambda>(k, t). (k, h' t)) spf' =
          merge_entries (map h rs) (map (\<lambda>(k, t). (k, h t)) [])"
    by (rule merge_features_refines [OF assms(1) _ _ _ _ assms(2)]) simp_all
  then have "fst ` set (map (\<lambda>(k, t). (k, h' t)) spf') = fst ` set (merge_entries (map h rs) [])"
    by simp
  moreover have "fst ` set (map (\<lambda>(k, t). (k, h' t)) spf') = fst ` set spf'"
    by force
  ultimately show ?thesis by (simp add: merge_entries_keys image_image)
qed

lemma after_split:
  assumes run: "merge_features (pre @ r # post) ([], h) = (spf', h')"
    and d: "distinct (pre @ r # post)"
  shows "h' r =
           (if name (h r) \<in> (\<lambda>a. name (h a)) ` set pre then h r
            else foldl MergeFrom (h r) (filter (\<lambda>g. name g = name (h r)) (map h post)))"
proof -
  obtain spf1 h1 where run1: "merge_features pre ([], h) = (spf1, h1)"
    by (cases "merge_features pre ([], h)")
  have run2: "merge_features (r # post) (spf1, h1) = (spf', h')"
    using run run1 by (simp add: merge_features_append)
  have dpre: "distinct pre" and dpost: "distinct post"
    and r_pre: "r \<notin> set pre" and r_post: "r \<notin> set post"
    and pre_post: "set pre \<inter> set post = {}"
    using d by auto
  have ds1: "distinct (map snd spf1)" and dk1: "distinct (map fst spf1)"
    and refs1: "snd ` set spf1 \<subseteq> set pre"
    using merge_features_inv [OF dpre _ _ _ run1] by simp_all
  have names1: "(\<forall>(k, t)\<in>set spf1. name (h1 t) = k) \<and> (\<forall>a. name (h1 a) = name (h a))"
    by (rule merge_features_names [OF run1]) simp
  then have wf1: "\<forall>(k, t)\<in>set spf1. name (h1 t) = k"
    and nm1: "\<And>a. name (h1 a) = name (h a)"
    by auto
  have frame1: "\<And>a. a \<notin> set pre \<Longrightarrow> h1 a = h a"
    using merge_features_frame [OF run1] refs1 by blast
  have h1r: "h1 r = h r" using frame1 r_pre by simp
  have h1post: "map h1 post = map h post" using frame1 pre_post by auto
  have keys1: "fst ` set spf1 = (\<lambda>a. name (h a)) ` set pre"
    by (rule merge_features_keys [OF dpre run1])
  show ?thesis
  proof (cases "map_of spf1 (name (h r))")
    case (Some t)
    let ?h2 = "h1(t := MergeFrom (h1 t) (h1 r))"
    have "(name (h r), t) \<in> set spf1" using Some by (rule map_of_SomeD)
    then have tin: "t \<in> snd ` set spf1" and kin: "name (h r) \<in> fst ` set spf1" by force+
    then have tr: "t \<noteq> r" using refs1 r_pre by auto
    have run3: "merge_features post (spf1, ?h2) = (spf', h')"
      using run2 Some by (simp add: h1r)
    have "distinct (map snd spf') \<and> distinct (map fst spf') \<and>
          snd ` set spf' \<subseteq> snd ` set spf1 \<union> set post"
      by (rule merge_features_inv [OF dpost _ ds1 dk1 run3]) (use refs1 pre_post in auto)
    then have "snd ` set spf' \<subseteq> set pre \<union> set post" using refs1 by blast
    then have "r \<notin> snd ` set spf'" using r_pre r_post by blast
    then have "h' r = ?h2 r" using merge_features_frame [OF run3] by blast
    then have "h' r = h r" using tr h1r by simp
    then show ?thesis using kin keys1 by simp
  next
    case None
    let ?n = "name (h r)"
    let ?spf2 = "spf1 @ [(?n, r)]"
    have key: "?n \<notin> fst ` set spf1" using None by (simp add: map_of_eq_None_iff)
    have run3: "merge_features post (?spf2, h1) = (spf', h')"
      using run2 None by (simp add: h1r)
    have p1: "set post \<inter> snd ` set ?spf2 = {}" using refs1 pre_post r_post by auto
    have p2: "distinct (map snd ?spf2)" using ds1 refs1 r_pre by auto
    have p3: "distinct (map fst ?spf2)" using dk1 key by auto
    have p4: "\<forall>(k, t)\<in>set ?spf2. name (h1 t) = k" using wf1 nm1 by auto
    have ref: "map (\<lambda>(k, t). (k, h' t)) spf' =
                 merge_entries (map h1 post) (map (\<lambda>(k, t). (k, h1 t)) ?spf2)"
      by (rule merge_features_refines [OF dpost p1 p2 p3 p4 run3])
    have inv3: "distinct (map snd spf') \<and> distinct (map fst spf') \<and>
          snd ` set spf' \<subseteq> snd ` set ?spf2 \<union> set post"
      by (rule merge_features_inv [OF dpost p1 p2 p3 run3])
    have "(?n, r) \<in> set spf'" using merge_features_frame [OF run3] by auto
    then have "map_of spf' ?n = Some r" using inv3 by simp
    then have lhs: "map_of (map (\<lambda>(k, t). (k, h' t)) spf') ?n = Some (h' r)"
      by (simp add: map_of_deref)
    have "map_of ?spf2 ?n = Some r" using None by (simp add: map_add_def)
    then have "map_of (map (\<lambda>(k, t). (k, h1 t)) ?spf2) ?n = Some (h1 r)"
      by (simp only: map_of_deref) simp
    then have rhs: "map_of (merge_entries (map h1 post) (map (\<lambda>(k, t). (k, h1 t)) ?spf2)) ?n =
                 Some (foldl MergeFrom (h1 r) (filter (\<lambda>g. name g = ?n) (map h1 post)))"
      by (simp only: merge_entries_lookup) simp
    have "h' r = foldl MergeFrom (h1 r) (filter (\<lambda>g. name g = ?n) (map h1 post))"
      using lhs rhs by (simp only: ref) simp
    then show ?thesis using key keys1 by (simp add: h1r h1post)
  qed
qed

lemma entries_after_map:
  assumes run: "merge_features rs ([], h) = (spf', h')" and d: "distinct rs"
  shows "pre @ xs = rs \<Longrightarrow>
         map h' xs = entries_after ((\<lambda>a. name (h a)) ` set pre) (map h xs)"
proof (induction xs arbitrary: pre)
  case Nil
  show ?case by simp
next
  case (Cons r post)
  have split: "merge_features (pre @ r # post) ([], h) = (spf', h')"
    and dist: "distinct (pre @ r # post)"
    using run d Cons.prems by simp_all
  have hd: "h' r =
           (if name (h r) \<in> (\<lambda>a. name (h a)) ` set pre then h r
            else foldl MergeFrom (h r) (filter (\<lambda>g. name g = name (h r)) (map h post)))"
    by (rule after_split [OF split dist])
  have "(pre @ [r]) @ post = rs" using Cons.prems by simp
  then have "map h' post = entries_after ((\<lambda>a. name (h a)) ` set (pre @ [r])) (map h post)"
    by (rule Cons.IH)
  then have tl: "map h' post =
      entries_after (insert (name (h r)) ((\<lambda>a. name (h a)) ` set pre)) (map h post)"
    by simp
  show ?case using hd tl by simp
qed

lemma concat_features_map:
  "concat (map features (map (map_DatasetFeatureStatistics f) rs)) =
     map f (concat (map features rs))"
  by (induction rs) (simp_all add: DatasetFeatureStatistics.map_sel)

lemma inputs_after_entries:
  "concat (map features (inputs_after ps)) = entries_after {} (concat (map features ps))"
proof -
  let ?rs = "[0 ..< length (concat (map features ps))]"
  obtain spf h' where run: "merge_features ?rs ([], store_of ps) = (spf, h')"
    by (cases "merge_features ?rs ([], store_of ps)")
  have "map h' ?rs = entries_after ((\<lambda>a. name (store_of ps a)) ` set []) (map (store_of ps) ?rs)"
    by (rule entries_after_map [OF run]) simp_all
  then have "map h' ?rs = entries_after {} (concat (map features ps))"
    by (simp add: store_of_entries)
  then show ?thesis
    by (simp only: inputs_after_eq [OF run] concat_features_map refs_of_concat) simp
qed

lemma inputs_after_shape:
  "map num_examples (inputs_after ps) = map num_examples ps \<and>
   map (\<lambda>p. length (features p)) (inputs_after ps) = map (\<lambda>p. length (features p)) ps"
proof -
  let ?rs = "[0 ..< length (concat (map features ps))]"
  obtain spf h' where run: "merge_features ?rs ([], store_of ps) = (spf, h')"
    by (cases "merge_features ?rs ([], store_of ps)")
  have a: "inputs_after ps = map (map_DatasetFeatureStatistics h') (refs_of 0 ps)"
    by (rule inputs_after_eq [OF run])
  have "map num_examples (map (map_DatasetFeatureStatistics (store_of ps)) (refs_of 0 ps)) =
          map num_examples ps \<and>
        map (\<lambda>p. length (features p))
          (map (map_DatasetFeatureStatistics (store_of ps)) (refs_of 0 ps)) =
          map (\<lambda>p. length (features p)) ps"
    by (simp add: store_of_deref)
  then show ?thesis
    by (simp add: a comp_def DatasetFeatureStatistics.map_sel)
qed

section \<open>Outcome and permutations\<close>

lemma merged_report_first_examples:
  "merged_report ps =
     (case first_examples (merged_features ps) of
        None \<Rightarrow> Inr (DatasetFeatureStatistics None (merged_features ps))
      | Some k \<Rightarrow>
          if k < 2 ^ 64 then Inr (DatasetFeatureStatistics (Some (of_nat k)) (merged_features ps))
          else Inl (ValueError k))"
  by (simp only: merged_report_cases merged_count_eq)



section \<open>Properties of the whitelist and of the generator check\<close>

lemma filter_features_loop_apply:
  "filter_features_loop batch wl acc n =
     (if n \<in> set wl \<and> batch n \<noteq> None then batch n else acc n)"
  by (induction wl arbitrary: acc) (auto split: option.splits)

lemma filter_features_apply:
  "filter_features batch wl n = (if n \<in> set wl then batch n else None)"
  by (simp add: filter_features_def filter_features_loop_apply)

lemma add_generators_offender:
  "find (\<lambda>g. \<not> is_combiner g) gs = Some g \<Longrightarrow>
   add_generators gs acc = Inl (TypeError (type_error_message (class_name g)))"
  by (induction gs acc rule: add_generators.induct) auto

lemma add_generators_all:
  "list_all is_combiner gs \<Longrightarrow> \<exists>cs. add_generators gs acc = Inr (acc @ cs)"
  by (induction gs acc rule: add_generators.induct) auto

lemma whitelist_batch_missing:
  "find (\<lambda>n. batch n = None) wl = Some n \<Longrightarrow>
   whitelist_batch batch wl acc = Inl (KeyError n)"
  by (induction wl arbitrary: acc) (auto split: option.splits if_splits)

section \<open>The claims\<close>

text \<open>
  Claim C1, as amended. The merger has no check of the oneof member and raises no
  schema conflict. When two partial reports have entries \<open>e1\<close> and \<open>e2\<close> of one name
  with different oneof members, the entries that the merger builds have exactly one
  entry of that name, and its oneof member is the one of the last entry of that name, in
  the order of the inputs, that has a member set. The call returns the report with
  these entries, unless the count taken for \<^verbatim>\<open>num_examples\<close> is not below \<open>2 ^ 64\<close>: then,
  and only then, it raises the \<^verbatim>\<open>ValueError\<close> of line 200.
\<close>

theorem merge_kind_mismatch_last_wins:
  assumes "e1 \<in> set (features p1)" and "e2 \<in> set (features p2)"
    and "name e1 = name e2" and "WhichOneof (stats e1) \<noteq> WhichOneof (stats e2)"
  shows "(\<exists>e. e \<in> set (merged_features [p1, p2]) \<and> name e = name e2 \<and>
           (\<forall>e'\<in>set (merged_features [p1, p2]). name e' = name e2 \<longrightarrow> e' = e) \<and>
           WhichOneof (stats e) =
             last_kind (filter (\<lambda>f. name f = name e2) (features p1 @ features p2)) \<and>
           WhichOneof (stats e) \<noteq> None) \<and>
         merged_report [p1, p2] =
           (case first_examples (merged_features [p1, p2]) of
              None \<Rightarrow> Inr (DatasetFeatureStatistics None (merged_features [p1, p2]))
            | Some k \<Rightarrow>
                if k < 2 ^ 64
                then Inr (DatasetFeatureStatistics (Some (of_nat k)) (merged_features [p1, p2]))
                else Inl (ValueError k))"
proof -
  let ?named = "filter (\<lambda>f. name f = name e2) (features p1 @ features p2)"
  have in1: "e1 \<in> set ?named" and in2: "e2 \<in> set ?named" using assms(1,2,3) by auto
  then have "?named \<noteq> []" by (metis empty_iff list.set(1))
  then obtain f gs where fg: "?named = f # gs" unfolding neq_Nil_conv by blast
  let ?e = "foldl MergeFrom f gs"
  have fold: "entry_fold (name e2) (concat (map features [p1, p2])) = Some ?e"
    using fg by (simp add: entry_fold_def)
  have mem: "?e \<in> set (merged_features [p1, p2]) \<and> name ?e = name e2"
    using merged_features_entry [of ?e "[p1, p2]" "name e2"] fold by simp
  have uniq: "\<forall>e'\<in>set (merged_features [p1, p2]). name e' = name e2 \<longrightarrow> e' = ?e"
  proof (intro ballI impI)
    fix e' assume "e' \<in> set (merged_features [p1, p2])" and "name e' = name e2"
    then have "entry_fold (name e2) (concat (map features [p1, p2])) = Some e'"
      using merged_features_entry [of e' "[p1, p2]" "name e2"] by blast
    then show "e' = ?e" using fold by simp
  qed
  have kind: "WhichOneof (stats ?e) = last_kind ?named"
    by (simp only: WhichOneof_foldl fg)
  have "\<not> (\<forall>f\<in>set ?named. WhichOneof (stats f) = None)"
    using in1 in2 assms(4) by metis
  then have set_kind: "WhichOneof (stats ?e) \<noteq> None"
    by (simp only: kind last_kind_None) simp
  from mem uniq kind set_kind
  have "\<exists>e. e \<in> set (merged_features [p1, p2]) \<and> name e = name e2 \<and>
           (\<forall>e'\<in>set (merged_features [p1, p2]). name e' = name e2 \<longrightarrow> e' = e) \<and>
           WhichOneof (stats e) = last_kind ?named \<and> WhichOneof (stats e) \<noteq> None"
    by blast
  then show ?thesis using merged_report_first_examples [of "[p1, p2]"] by blast
qed

theorem merge_kind_mismatch_last_wins_witness:
  "(\<exists>e. e \<in> set (merged_features
            [DatasetFeatureStatistics None [\<lparr>name = ''x'', stats = Num_stats None\<rparr>],
             DatasetFeatureStatistics None [\<lparr>name = ''x'', stats = String_stats None\<rparr>]]) \<and>
        name e = ''x'' \<and> WhichOneof (stats e) = Some ''string_stats'') \<and>
   merged_report
     [DatasetFeatureStatistics None [\<lparr>name = ''x'', stats = Num_stats None\<rparr>],
      DatasetFeatureStatistics None [\<lparr>name = ''x'', stats = String_stats None\<rparr>]]
   = Inr (DatasetFeatureStatistics None [\<lparr>name = ''x'', stats = String_stats None\<rparr>])"
  using merge_kind_mismatch_last_wins
    [of "\<lparr>name = ''x'', stats = Num_stats None\<rparr>"
        "DatasetFeatureStatistics None [\<lparr>name = ''x'', stats = Num_stats None\<rparr>]"
        "\<lparr>name = ''x'', stats = String_stats None\<rparr>"
        "DatasetFeatureStatistics None [\<lparr>name = ''x'', stats = String_stats None\<rparr>]"]
  by (simp add: merged_features_eq MergeFrom_def examples_of_def)

text \<open>
  The claim as stated fails: for feature \<open>x\<close> tagged numeric in the first report and
  string in the second, the merger returns a report, in which \<open>x\<close> is string-valued.
\<close>

theorem merge_kind_mismatch_counterexample:
  "merged_report
     [DatasetFeatureStatistics None
        [\<lparr>name = ''x'', stats = Num_stats (Some \<lparr>num_non_missing = 3, num_missing = 1\<rparr>)\<rparr>],
      DatasetFeatureStatistics None
        [\<lparr>name = ''x'', stats = String_stats (Some \<lparr>num_non_missing = 4, num_missing = 0\<rparr>)\<rparr>]]
   = Inr (DatasetFeatureStatistics (Some 4)
        [\<lparr>name = ''x'', stats = String_stats (Some \<lparr>num_non_missing = 4, num_missing = 0\<rparr>)\<rparr>])"
  by (simp add: merged_report_first_examples merged_features_eq MergeFrom_def
      CommonStatistics_MergeFrom_def examples_of_def)




text \<open>
  Claim C3, as amended. The merger overwrites entries of its inputs in place. After the
  call, also one that raises, the entries of the input reports are, in order: for the
  first entry of a name, that entry with every later entry of the same name merged into
  it by \<^verbatim>\<open>MergeFrom\<close>; for an entry whose name occurred before, the entry as it was. Every
  input report keeps its \<^verbatim>\<open>num_examples\<close> and its number of entries.
\<close>

theorem merge_inputs_frame:
  "concat (map features (inputs_after ps)) = entries_after {} (concat (map features ps)) \<and>
   map num_examples (inputs_after ps) = map num_examples ps \<and>
   map (\<lambda>p. length (features p)) (inputs_after ps) = map (\<lambda>p. length (features p)) ps"
  using inputs_after_entries [of ps] inputs_after_shape [of ps] by blast

theorem merge_inputs_frame_witness:
  "concat (map features (inputs_after
     [DatasetFeatureStatistics None
        [\<lparr>name = ''x'', stats = Num_stats (Some \<lparr>num_non_missing = 3, num_missing = 1\<rparr>)\<rparr>],
      DatasetFeatureStatistics (Some 7)
        [\<lparr>name = ''y'', stats = Stats_not_set\<rparr>,
         \<lparr>name = ''x'', stats = Num_stats (Some \<lparr>num_non_missing = 5, num_missing = 0\<rparr>)\<rparr>]]))
   = [\<lparr>name = ''x'', stats = Num_stats (Some \<lparr>num_non_missing = 5, num_missing = 1\<rparr>)\<rparr>,
      \<lparr>name = ''y'', stats = Stats_not_set\<rparr>,
      \<lparr>name = ''x'', stats = Num_stats (Some \<lparr>num_non_missing = 5, num_missing = 0\<rparr>)\<rparr>] \<and>
   map num_examples (inputs_after
     [DatasetFeatureStatistics None
        [\<lparr>name = ''x'', stats = Num_stats (Some \<lparr>num_non_missing = 3, num_missing = 1\<rparr>)\<rparr>],
      DatasetFeatureStatistics (Some 7)
        [\<lparr>name = ''y'', stats = Stats_not_set\<rparr>,
         \<lparr>name = ''x'', stats = Num_stats (Some \<lparr>num_non_missing = 5, num_missing = 0\<rparr>)\<rparr>]])
   = [None, Some 7]"
  using merge_inputs_frame
    [of "[DatasetFeatureStatistics None
        [\<lparr>name = ''x'', stats = Num_stats (Some \<lparr>num_non_missing = 3, num_missing = 1\<rparr>)\<rparr>],
      DatasetFeatureStatistics (Some 7)
        [\<lparr>name = ''y'', stats = Stats_not_set\<rparr>,
         \<lparr>name = ''x'', stats = Num_stats (Some \<lparr>num_non_missing = 5, num_missing = 0\<rparr>)\<rparr>]]"]
  by (simp add: MergeFrom_def CommonStatistics_MergeFrom_def)

text \<open>
  The claim as stated fails: when two reports have an entry for \<open>x\<close>, the entry of the
  first report is the object that \<^verbatim>\<open>MergeFrom\<close> is called on, and it is changed.
\<close>

theorem merge_mutates_input_counterexample:
  "inputs_after
     [DatasetFeatureStatistics None
        [\<lparr>name = ''x'', stats = Num_stats (Some \<lparr>num_non_missing = 3, num_missing = 1\<rparr>)\<rparr>],
      DatasetFeatureStatistics None
        [\<lparr>name = ''x'', stats = Num_stats (Some \<lparr>num_non_missing = 5, num_missing = 0\<rparr>)\<rparr>]]
   = [DatasetFeatureStatistics None
        [\<lparr>name = ''x'', stats = Num_stats (Some \<lparr>num_non_missing = 5, num_missing = 1\<rparr>)\<rparr>],
      DatasetFeatureStatistics None
        [\<lparr>name = ''x'', stats = Num_stats (Some \<lparr>num_non_missing = 5, num_missing = 0\<rparr>)\<rparr>]]
   \<and> inputs_after
     [DatasetFeatureStatistics None
        [\<lparr>name = ''x'', stats = Num_stats (Some \<lparr>num_non_missing = 3, num_missing = 1\<rparr>)\<rparr>],
      DatasetFeatureStatistics None
        [\<lparr>name = ''x'', stats = Num_stats (Some \<lparr>num_non_missing = 5, num_missing = 0\<rparr>)\<rparr>]]
   \<noteq>
     [DatasetFeatureStatistics None
        [\<lparr>name = ''x'', stats = Num_stats (Some \<lparr>num_non_missing = 3, num_missing = 1\<rparr>)\<rparr>],
      DatasetFeatureStatistics None
        [\<lparr>name = ''x'', stats = Num_stats (Some \<lparr>num_non_missing = 5, num_missing = 0\<rparr>)\<rparr>]]"
  by (simp add: inputs_after_def merge_call_def merge_dataset_feature_stats_protos_def
      merge_loops_def store_of_def MergeFrom_def CommonStatistics_MergeFrom_def)

text \<open>
  Claim C4. For a report whose only entry holds \<^verbatim>\<open>bytes_stats\<close> with its common
  sub-record present (3 non-missing and 1 missing), the merged report is left without
  \<^verbatim>\<open>num_examples\<close>, where the claim gives 4: lines 189 to 192 read \<^verbatim>\<open>string_stats\<close>
  for every entry that is not numeric.
\<close>

theorem num_examples_bytes_stats_skipped:
  "merged_report
     [DatasetFeatureStatistics None
        [\<lparr>name = ''image'',
          stats = Bytes_stats (Some \<lparr>num_non_missing = 3, num_missing = 1\<rparr>)\<rparr>]]
   = Inr (DatasetFeatureStatistics None
        [\<lparr>name = ''image'',
          stats = Bytes_stats (Some \<lparr>num_non_missing = 3, num_missing = 1\<rparr>)\<rparr>])"
  by (simp add: merged_report_first_examples merged_features_eq examples_of_def)

text \<open>
  Claim C5. When the user-supplied list \<^verbatim>\<open>options.generators\<close> has an entry that is
  no \<^verbatim>\<open>CombinerStatsGenerator\<close>, \<^verbatim>\<open>generate_statistics_in_memory\<close> raises the
  \<^verbatim>\<open>TypeError\<close> whose message names the class of the first such entry. The result is
  the same for every list of examples, every list of built-in generators and every
  \<^verbatim>\<open>merge_single_batch\<close>, also one that would fail: the error comes before the batch
  is built.
\<close>

theorem in_memory_rejects_non_combiner:
  assumes "generators options = Some gs" and "g \<in> set gs" and "\<not> is_combiner g"
  shows "\<exists>g'. find (\<lambda>g. \<not> is_combiner g) gs = Some g' \<and>
           generate_statistics_in_memory builtin merge_single_batch examples options =
             Inl (TypeError (type_error_message (class_name g')))"
proof -
  have "find (\<lambda>g. \<not> is_combiner g) gs \<noteq> None"
    using assms(2,3) by (auto simp: find_None_iff)
  then obtain g' where g': "find (\<lambda>g. \<not> is_combiner g) gs = Some g'" by auto
  have "add_generators gs builtin = Inl (TypeError (type_error_message (class_name g')))"
    using g' by (rule add_generators_offender)
  then have "generate_statistics_in_memory builtin merge_single_batch examples options =
             Inl (TypeError (type_error_message (class_name g')))"
    using assms(1) by (simp add: generate_statistics_in_memory_def)
  with g' show ?thesis by blast
qed

theorem in_memory_rejects_non_combiner_witness:
  "generate_statistics_in_memory []
     (\<lambda>examples. Inl (OtherError ''examples were read''))
     [''record 1'', ''record 2'']
     \<lparr>generators = Some
        [Combiner ''MyCombiner''
           \<lparr>create_accumulator = (0::nat), add_input = (\<lambda>a (b::nat list batch). a),
            extract_output = (\<lambda>a. DatasetFeatureStatistics None [])\<rparr>,
         Transform ''MyTransform'', Other ''int''],
      feature_whitelist = None\<rparr>
   = Inl (TypeError
       (''Statistics generator used in generate_statistics_in_memory must ''
        @ ''extend CombinerStatsGenerator, found object of type MyTransform.''))"
  using in_memory_rejects_non_combiner
    [of "\<lparr>generators = Some
        [Combiner ''MyCombiner''
           \<lparr>create_accumulator = (0::nat), add_input = (\<lambda>a (b::nat list batch). a),
            extract_output = (\<lambda>a. DatasetFeatureStatistics None [])\<rparr>,
         Transform ''MyTransform'', Other ''int''],
      feature_whitelist = None\<rparr>"
      "[Combiner ''MyCombiner''
           \<lparr>create_accumulator = (0::nat), add_input = (\<lambda>a (b::nat list batch). a),
            extract_output = (\<lambda>a. DatasetFeatureStatistics None [])\<rparr>,
         Transform ''MyTransform'', Other ''int'']"
      "Transform ''MyTransform''" "[]"
      "\<lambda>examples. Inl (OtherError ''examples were read'')"
      "[''record 1'', ''record 2'']"]
  by (simp add: type_error_message_def)

text \<open>
  Claim C6. Merging the empty list of partial reports returns a report with no feature
  entry and with \<^verbatim>\<open>num_examples\<close> unset, the inputs stay the empty list, and the
  assembled list proto holds this one report, hence no feature entry at all.
\<close>

theorem merge_empty_list:
  "merge_call [] = (Inr (DatasetFeatureStatistics None []), []) \<and>
   (case merged_report [] of
      Inl e \<Rightarrow> False
    | Inr r \<Rightarrow>
        make_dataset_feature_statistics_list_proto r =
          \<lparr>datasets = [DatasetFeatureStatistics None []]\<rparr> \<and>
        concat (map features (datasets (make_dataset_feature_statistics_list_proto r))) = [])"
  by (simp add: merge_call_def merged_report_def merge_dataset_feature_stats_protos_def
      merge_loops_def make_dataset_feature_statistics_list_proto_def)

text \<open>
  Claim C7. The batch that \<^verbatim>\<open>_filter_features\<close> returns has only whitelisted keys, with
  the columns of the input batch; a feature \<open>n\<close> outside the whitelist is not in
  it, so no generator is given \<open>n\<close>, and when the partial reports only have entries
  for features of the filtered batch, \<open>n\<close> names no entry that the merger builds and
  no entry of a report that it returns.
\<close>

theorem filter_features_whitelist_only:
  "dom (filter_features batch wl) \<subseteq> set wl \<and>
   (\<forall>m\<in>set wl. filter_features batch wl m = batch m) \<and>
   (n \<notin> set wl \<longrightarrow>
      filter_features batch wl n = None \<and>
      ((\<forall>p\<in>set reports. \<forall>f\<in>set (features p). name f \<in> dom (filter_features batch wl))
        \<longrightarrow> n \<notin> name ` set (merged_features reports) \<and>
            (case merged_report reports of
               Inl e \<Rightarrow> True
             | Inr r \<Rightarrow> n \<notin> name ` set (features r))))"
proof -
  have a: "dom (filter_features batch wl) \<subseteq> set wl"
    by (auto simp: filter_features_apply dom_def split: if_splits)
  have b: "\<forall>m\<in>set wl. filter_features batch wl m = batch m"
    by (simp add: filter_features_apply)
  have c: "n \<notin> name ` set (merged_features reports)"
    if "n \<notin> set wl"
      and "\<forall>p\<in>set reports. \<forall>f\<in>set (features p). name f \<in> dom (filter_features batch wl)"
  proof
    assume "n \<in> name ` set (merged_features reports)"
    then have "n \<in> name ` set (concat (map features reports))"
      by (simp only: merged_features_names_set)
    then obtain p f where "p \<in> set reports" "f \<in> set (features p)" "name f = n" by auto
    then have "n \<in> dom (filter_features batch wl)" using that(2) by auto
    then show False using a that(1) by auto
  qed
  have d: "case merged_report reports of
               Inl e \<Rightarrow> True
             | Inr r \<Rightarrow> n \<notin> name ` set (features r)"
    if "n \<notin> name ` set (merged_features reports)"
    using that merged_report_features [of reports] by (cases "merged_report reports") auto
  show ?thesis using a b c d by (simp add: filter_features_apply)
qed

theorem filter_features_whitelist_only_witness:
  "dom (filter_features [''A'' \<mapsto> [1::nat], ''B'' \<mapsto> [2], ''C'' \<mapsto> [3]] [''A'', ''C''])
     \<subseteq> {''A'', ''C''} \<and>
   filter_features [''A'' \<mapsto> [1::nat], ''B'' \<mapsto> [2], ''C'' \<mapsto> [3]] [''A'', ''C''] ''A''
     = Some [1] \<and>
   filter_features [''A'' \<mapsto> [1::nat], ''B'' \<mapsto> [2], ''C'' \<mapsto> [3]] [''A'', ''C''] ''B''
     = None \<and>
   ''B'' \<notin> name ` set (merged_features
      [DatasetFeatureStatistics None
         [\<lparr>name = ''A'', stats = Num_stats None\<rparr>, \<lparr>name = ''C'', stats = String_stats None\<rparr>],
       DatasetFeatureStatistics None [\<lparr>name = ''C'', stats = String_stats None\<rparr>]]) \<and>
   merged_report
      [DatasetFeatureStatistics None
         [\<lparr>name = ''A'', stats = Num_stats None\<rparr>, \<lparr>name = ''C'', stats = String_stats None\<rparr>],
       DatasetFeatureStatistics None [\<lparr>name = ''C'', stats = String_stats None\<rparr>]]
   = Inr (DatasetFeatureStatistics None
         [\<lparr>name = ''A'', stats = Num_stats None\<rparr>, \<lparr>name = ''C'', stats = String_stats None\<rparr>])"
  using filter_features_whitelist_only
    [of "[''A'' \<mapsto> [1::nat], ''B'' \<mapsto> [2], ''C'' \<mapsto> [3]]" "[''A'', ''C'']" "''B''"
      "[DatasetFeatureStatistics None
         [\<lparr>name = ''A'', stats = Num_stats None\<rparr>, \<lparr>name = ''C'', stats = String_stats None\<rparr>],
       DatasetFeatureStatistics None [\<lparr>name = ''C'', stats = String_stats None\<rparr>]]"]
  by (simp add: filter_features_def merged_report_first_examples merged_features_eq
      MergeFrom_def examples_of_def)



text \<open>
  Claim C10. In \<^verbatim>\<open>generate_statistics_in_memory\<close>, when the generators pass the check and
  the whitelist has a name that is no key of the batch built from the examples, the
  call raises \<^verbatim>\<open>KeyError\<close> for the first such name. \<^verbatim>\<open>_filter_features\<close> on the same
  batch and whitelist returns a batch, in which that name is absent and whose keys are
  the whitelisted keys of the batch.
\<close>

theorem in_memory_whitelist_key_error:
  assumes "list_all is_combiner (case generators options of None \<Rightarrow> [] | Some gs \<Rightarrow> gs)"
    and "merge_single_batch examples = Inr batch"
    and "feature_whitelist options = Some wl" and "n \<in> set wl" and "batch n = None"
  shows "(\<exists>m. find (\<lambda>m. batch m = None) wl = Some m \<and>
              generate_statistics_in_memory builtin merge_single_batch examples options =
                Inl (KeyError m)) \<and>
         filter_features batch wl n = None \<and>
         dom (filter_features batch wl) = set wl \<inter> dom batch"
proof -
  have "find (\<lambda>m. batch m = None) wl \<noteq> None"
    using assms(4,5) by (auto simp: find_None_iff)
  then obtain m where m: "find (\<lambda>m. batch m = None) wl = Some m" by auto
  obtain sg where sg: "(case generators options of None \<Rightarrow> Inr builtin
                        | Some gs \<Rightarrow> add_generators gs builtin) = Inr sg"
    using assms(1) add_generators_all [of _ builtin] by (cases "generators options") auto
  have ne: "wl \<noteq> []" using assms(4) by auto
  then obtain w ws where wl: "wl = w # ws" by (cases wl) auto
  have "apply_whitelist (feature_whitelist options) batch = Inl (KeyError m)"
    using whitelist_batch_missing [OF m, of Map.empty] assms(3) wl by simp
  then have run: "generate_statistics_in_memory builtin merge_single_batch examples options =
               Inl (KeyError m)"
    using sg assms(2) by (simp add: generate_statistics_in_memory_def)
  have "dom (filter_features batch wl) = set wl \<inter> dom batch"
    by (auto simp: filter_features_apply dom_def)
  then show ?thesis using m run assms(5) by (auto simp: filter_features_apply)
qed

theorem in_memory_whitelist_key_error_witness:
  "generate_statistics_in_memory [] (\<lambda>examples. Inr [''A'' \<mapsto> [1::nat, 2]]) [()]
     \<lparr>generators = (None :: (nat, nat list) generator list option),
      feature_whitelist = Some [''A'', ''Z'', ''Y'']\<rparr> = Inl (KeyError ''Z'') \<and>
   filter_features [''A'' \<mapsto> [1::nat, 2]] [''A'', ''Z'', ''Y''] ''Z'' = None \<and>
   dom (filter_features [''A'' \<mapsto> [1::nat, 2]] [''A'', ''Z'', ''Y'']) = {''A''}"
  using in_memory_whitelist_key_error
    [of "\<lparr>generators = (None :: (nat, nat list) generator list option),
      feature_whitelist = Some [''A'', ''Z'', ''Y'']\<rparr>"
      "\<lambda>examples. Inr [''A'' \<mapsto> [1::nat, 2]]" "[()]" "[''A'' \<mapsto> [1::nat, 2]]"
      "[''A'', ''Z'', ''Y'']" "''Z''" "[]"]
  by simp

end
